theory Spec2Isabelle
  imports Complex_Main "HOL-Library.AList" "HOL-Library.Char_ord" "HOL-Library.List_Lexorder"
begin

section \<open>Conventions\<close>

text \<open>
  A shallow embedding of the orchestrator of \<^verbatim>\<open>main.py\<close> (class \<^verbatim>\<open>Game\<close>), of
  \<^verbatim>\<open>Button.resize\<close> and of the animation code of \<^verbatim>\<open>Player\<close>.

  Python's unbounded integers are \<^typ>\<open>int\<close>. Python floats are modelled by exact
  rationals (\<^typ>\<open>rat\<close>): rounding of IEEE doubles is outside the model. Exceptions are
  values of a sum type, \<open>Inl\<close> carrying the exception. Objects that are shared by
  reference (the views) live in a store, a list indexed by reference.
\<close>

datatype error = ZeroDivisionError | AttributeError | SystemExit | KeyError | IndexError
  | OSError | ValueError | PygameError

definition bind_result :: "error + 'a \<Rightarrow> ('a \<Rightarrow> error + 'b) \<Rightarrow> error + 'b" where
  "bind_result r f = (case r of Inl e \<Rightarrow> Inl e | Inr x \<Rightarrow> f x)"

definition py_int :: "rat \<Rightarrow> int" where
  \<comment> \<open>Python's \<^verbatim>\<open>int(x)\<close> on a float: truncation toward zero.\<close>
  "py_int x = (if 0 \<le> x then \<lfloor>x\<rfloor> else \<lceil>x\<rceil>)"

section \<open>Button (views/button.py)\<close>

text \<open>
  The rectangle of a button is a \<^verbatim>\<open>pygame.Rect\<close>, whose coordinates are integers: a
  float assigned to one of them is truncated. The image surfaces are represented by
  the size they were last scaled to.
\<close>

record button =
  btn_text :: string
  original_x :: rat
  original_y :: rat
  original_width :: rat
  original_height :: rat
  rect_x :: int
  rect_y :: int
  rect_width :: int
  rect_height :: int
  hovered :: bool
  has_image :: bool
  scaled_image :: "(int \<times> int) option"
  scaled_hover_image :: "(int \<times> int) option"

definition scale_image :: "button \<Rightarrow> button" where
  "scale_image b =
     (if \<not> has_image b then b
      else b\<lparr>scaled_image := Some (rect_width b, rect_height b)\<rparr>)"

definition scale_hover_image :: "button \<Rightarrow> button" where
  "scale_hover_image b =
     (if \<not> has_image b then b
      else b\<lparr>scaled_hover_image := Some (rect_width b, rect_height b)\<rparr>)"

definition resize :: "rat \<Rightarrow> rat \<Rightarrow> button \<Rightarrow> button" where
  "resize scale_x scale_y b =
     (let b1 = b\<lparr>rect_x := py_int (original_x b * scale_x)\<rparr>;
          b2 = b1\<lparr>rect_y := py_int (original_y b1 * scale_y)\<rparr>;
          b3 = b2\<lparr>rect_width := py_int (original_width b2 * scale_x)\<rparr>;
          b4 = b3\<lparr>rect_height := py_int (original_height b3 * scale_y)\<rparr>
      in if has_image b4 then scale_hover_image (scale_image b4) else b4)"

definition Button :: "string \<Rightarrow> rat \<Rightarrow> rat \<Rightarrow> rat \<Rightarrow> rat \<Rightarrow> bool \<Rightarrow> button" where
  \<comment> \<open>The constructor; the last argument says whether an image was loaded.\<close>
  "Button t x y w h img =
     (let b = \<lparr>btn_text = t, original_x = x, original_y = y, original_width = w,
                original_height = h, rect_x = py_int x, rect_y = py_int y,
                rect_width = py_int w, rect_height = py_int h, hovered = False,
                has_image = img, scaled_image = None, scaled_hover_image = None\<rparr>
      in if img then scale_hover_image (scale_image b) else b)"

section \<open>Views\<close>

datatype view_kind = MainMenuK | SettingsK | GameViewK

record view =
  kind :: view_kind
  view_design_width :: int
  view_design_height :: int
  view_size :: "(int \<times> int) option"
  buttons :: "button list"
  view_show_fps :: bool
  view_font :: "int option"
  has_toggle_fullscreen :: bool
  is_ingame :: bool

definition uniform_scale :: "int \<Rightarrow> int \<Rightarrow> int \<Rightarrow> int \<Rightarrow> error + rat" where
  \<comment> \<open>\<^verbatim>\<open>min(w / design_w, h / design_h)\<close>, as \<^verbatim>\<open>Game.handle_resize\<close> computes it.\<close>
  "uniform_scale w h dw dh =
     (if dw = 0 \<or> dh = 0 then Inl ZeroDivisionError
      else Inr (min (of_int w / of_int dw) (of_int h / of_int dh)))"

text \<open>
  Modelled from the spec: the view classes (\<^verbatim>\<open>MainMenu\<close>, \<^verbatim>\<open>Settings\<close>, \<^verbatim>\<open>GameView\<close>)
  are not among the sources. Section 4.3 of the spec: \<open>handle_resize(w, h)\<close> of a view
  rescales its elements with \<open>min(w/design_w, h/design_h)\<close> as one uniform factor; the
  game view repositions its camera viewport.
\<close>

definition view_handle_resize :: "int \<Rightarrow> int \<Rightarrow> view \<Rightarrow> error + view" where
  "view_handle_resize w h v =
     (if kind v = GameViewK then Inr (v\<lparr>view_size := Some (w, h)\<rparr>)
      else bind_result (uniform_scale w h (view_design_width v) (view_design_height v))
             (\<lambda>s. Inr (v\<lparr>view_size := Some (w, h),
                          buttons := map (resize s s) (buttons v)\<rparr>)))"

section \<open>The transition overlay\<close>

text \<open>
  Modelled from the spec: the class \<^verbatim>\<open>LoadingScreen\<close> is not among the sources. Its
  constructor arguments and the fields \<open>alpha\<close> and \<open>active\<close> are those \<^verbatim>\<open>main.py\<close>
  uses. Section 4.4 of the spec: a transition starts fading in; each tick moves
  \<open>alpha\<close> by a fixed step, up to 255 while fading in and down to 0 while fading out;
  \<open>progress\<close> is a field the loader sets; a resize sets the overlay's geometry.
\<close>

record loading_screen =
  ls_design_width :: int
  ls_design_height :: int
  current_width :: int
  current_height :: int
  alpha :: int
  active :: bool
  progress :: int

definition LoadingScreen :: "int \<Rightarrow> int \<Rightarrow> int \<Rightarrow> int \<Rightarrow> loading_screen" where
  "LoadingScreen dw dh cw ch =
     \<lparr>ls_design_width = dw, ls_design_height = dh, current_width = cw,
      current_height = ch, alpha = 0, active = True, progress = 0\<rparr>"

definition update_fade :: "int \<Rightarrow> loading_screen \<Rightarrow> loading_screen" where
  "update_fade step ts =
     (if active ts then ts\<lparr>alpha := min 255 (alpha ts + step)\<rparr>
      else ts\<lparr>alpha := max 0 (alpha ts - step)\<rparr>)"

definition update_progress :: "int \<Rightarrow> loading_screen \<Rightarrow> loading_screen" where
  "update_progress p ts = ts\<lparr>progress := p\<rparr>"

definition update_screen_size :: "int \<Rightarrow> int \<Rightarrow> loading_screen \<Rightarrow> loading_screen" where
  "update_screen_size w h ts = ts\<lparr>current_width := w, current_height := h\<rparr>"

section \<open>The orchestrator (main.py)\<close>

text \<open>
  What the program does to the outside, in order: the calls that draw, flip the
  display, regulate the frame rate, pump the event queue, and the loader's pauses.
\<close>

datatype io = Fill | DrawView nat | DrawOverlay loading_screen | Flip | Tick int | Pump
  | Sleep rat

text \<open>
  The loading coroutine between two suspensions: created and not yet run, suspended in
  the pause of step \<open>i\<close>, returned, or ended by an exception.
\<close>

datatype task = Created | Sleeping nat | Finished | Failed error

text \<open>
  The attributes of \<^verbatim>\<open>Game\<close>. \<open>saved_game_view\<close> and \<open>load_task\<close> are attributes that
  exist only once assigned (\<^verbatim>\<open>hasattr\<close>): \<open>None\<close> is the absent attribute.
  \<open>mouse_visible\<close> and \<open>mouse_blocked\<close> are the state of the cursor and of the three
  mouse event types, which the code always allows or blocks together. \<open>views\<close> is the
  store of view objects, \<open>tasks_created\<close> counts the calls of \<^verbatim>\<open>asyncio.create_task\<close>,
  and \<open>trace\<close> is the list of outside effects so far.
\<close>

record game =
  design_width :: int
  design_height :: int
  WIDTH :: int
  HEIGHT :: int
  FPS :: int
  fullscreen :: bool
  show_fps :: bool
  windowed_size :: "int \<times> int"
  font :: "int option"
  current_view :: "nat option"
  transition_screen :: "loading_screen option"
  pending_view :: "string option"
  saved_game_view :: "nat option"
  load_task :: "task option"
  mouse_visible :: bool
  mouse_blocked :: bool
  views :: "view list"
  tasks_created :: nat
  trace :: "io list"

text \<open>
  What the sources leave to the environment: the constant \<^verbatim>\<open>const.font_sizes["medium"]\<close>,
  the size the system reports for the fullscreen window, the step of the fade, and
  the buttons the menu and the settings view lay out.
\<close>

record env =
  font_medium :: int
  native_size :: "int \<times> int"
  fade_step :: int
  menu_buttons :: "button list"
  settings_buttons :: "button list"

definition emit :: "io list \<Rightarrow> game \<Rightarrow> game" where
  "emit xs g = g\<lparr>trace := trace g @ xs\<rparr>"

definition new_view :: "view \<Rightarrow> game \<Rightarrow> game" where
  \<comment> \<open>Allocates a view object and makes it the current view.\<close>
  "new_view v g = g\<lparr>current_view := Some (length (views g)), views := views g @ [v]\<rparr>"

definition MainMenu :: "env \<Rightarrow> int \<Rightarrow> int \<Rightarrow> view" where
  "MainMenu e dw dh =
     \<lparr>kind = MainMenuK, view_design_width = dw, view_design_height = dh,
      view_size = None, buttons = menu_buttons e, view_show_fps = False,
      view_font = None, has_toggle_fullscreen = False, is_ingame = False\<rparr>"

definition Settings :: "env \<Rightarrow> int \<Rightarrow> int \<Rightarrow> bool \<Rightarrow> bool \<Rightarrow> bool \<Rightarrow> view" where
  "Settings e dw dh fps toggle ingame =
     \<lparr>kind = SettingsK, view_design_width = dw, view_design_height = dh,
      view_size = None, buttons = settings_buttons e, view_show_fps = fps,
      view_font = None, has_toggle_fullscreen = toggle, is_ingame = ingame\<rparr>"

definition GameView :: "int option \<Rightarrow> bool \<Rightarrow> view" where
  "GameView f fps =
     \<lparr>kind = GameViewK, view_design_width = 0, view_design_height = 0,
      view_size = None, buttons = [], view_show_fps = fps,
      view_font = f, has_toggle_fullscreen = False, is_ingame = False\<rparr>"

definition handle_resize :: "env \<Rightarrow> game \<Rightarrow> error + game" where
  "handle_resize e g =
     bind_result (uniform_scale (WIDTH g) (HEIGHT g) (design_width g) (design_height g))
       (\<lambda>scale.
          let g1 = g\<lparr>font := Some (py_int (of_int (font_medium e) * scale))\<rparr>
          in case current_view g1 of
               None \<Rightarrow> Inr g1
             | Some r \<Rightarrow>
                 if r < length (views g1)
                 then bind_result (view_handle_resize (WIDTH g1) (HEIGHT g1) (views g1 ! r))
                        (\<lambda>v. Inr (g1\<lparr>views := (views g1)[r := v]\<rparr>))
                 else Inl AttributeError)"

definition is_game_view :: "game \<Rightarrow> bool" where
  \<comment> \<open>\<^verbatim>\<open>isinstance(self.current_view, GameView)\<close>\<close>
  "is_game_view g =
     (case current_view g of
        None \<Rightarrow> False
      | Some r \<Rightarrow> r < length (views g) \<and> kind (views g ! r) = GameViewK)"

definition switch_view :: "env \<Rightarrow> string \<Rightarrow> game \<Rightarrow> error + game" where
  "switch_view e view_name g =
     (if view_name = ''main'' then
        (let g1 = g\<lparr>mouse_visible := True\<rparr>;
             g2 = new_view (MainMenu e (design_width g1) (design_height g1)) g1;
             g3 = g2\<lparr>mouse_blocked := False\<rparr>;
             g4 = g3\<lparr>pending_view := None\<rparr>
         in handle_resize e g4)
      else if view_name = ''game'' then
        (let g1 = g\<lparr>pending_view := Some ''game''\<rparr>;
             g2 = g1\<lparr>transition_screen :=
                      Some (LoadingScreen (design_width g1) (design_height g1)
                              (WIDTH g1) (HEIGHT g1))\<rparr>
         in handle_resize e g2)
      else if view_name = ''settings'' then
        (let g1 = g\<lparr>mouse_visible := True\<rparr>;
             g2 = new_view (Settings e (design_width g1) (design_height g1)
                              (show_fps g1) True False) g1;
             g3 = g2\<lparr>mouse_blocked := False\<rparr>;
             g4 = g3\<lparr>pending_view := None\<rparr>
         in handle_resize e g4)
      else if view_name = ''ingame_settings'' then
        (let g1 = g\<lparr>mouse_visible := True\<rparr>;
             g2 = (if is_game_view g1 then g1\<lparr>saved_game_view := current_view g1\<rparr>
                   else g1);
             g3 = new_view (Settings e (design_width g2) (design_height g2)
                              (show_fps g2) False True) g2;
             g4 = g3\<lparr>mouse_blocked := False\<rparr>;
             g5 = g4\<lparr>pending_view := None\<rparr>
         in handle_resize e g5)
      else if view_name = ''exit'' then Inl SystemExit
      else handle_resize e g)"

definition render_transition :: "game \<Rightarrow> error + game" where
  "render_transition g =
     (let g1 = emit [Fill] g;
          g2 = (case current_view g1 of None \<Rightarrow> g1 | Some r \<Rightarrow> emit [DrawView r] g1)
      in case transition_screen g2 of
           None \<Rightarrow> Inl AttributeError
         | Some ts \<Rightarrow> Inr (emit [DrawOverlay ts, Flip, Tick 60] g2))"

definition total_steps :: nat where
  "total_steps = 5"

definition load_step :: "nat \<Rightarrow> game \<Rightarrow> error + game" where
  \<comment> \<open>The body of the loader's loop after the pause of step \<open>i\<close>.\<close>
  "load_step i g =
     (case transition_screen g of
        None \<Rightarrow> Inl AttributeError
      | Some ts \<Rightarrow>
          bind_result
            (render_transition
               (g\<lparr>transition_screen := Some (update_progress ((int i + 1) * 20) ts)\<rparr>))
            (\<lambda>g1. Inr (emit [Pump] g1)))"

definition load_finish :: "game \<Rightarrow> error + game" where
  \<comment> \<open>The loader after its loop: the game view, the mouse, the start of the fade-out.\<close>
  "load_finish g =
     (let g1 = new_view (GameView (font g) (show_fps g)) g;
          g2 = g1\<lparr>mouse_blocked := True\<rparr>;
          g3 = g2\<lparr>mouse_visible := False\<rparr>
      in case transition_screen g3 of
           None \<Rightarrow> Inl AttributeError
         | Some ts \<Rightarrow> Inr (g3\<lparr>transition_screen := Some (ts\<lparr>active := False\<rparr>)\<rparr>))"

fun load_steps :: "nat list \<Rightarrow> game \<Rightarrow> error + game" where
  "load_steps [] g = Inr g"
| "load_steps (i # is) g =
     bind_result (load_step i (emit [Sleep (3 / 10)] g)) (load_steps is)"

definition load_game_resources :: "game \<Rightarrow> error + game" where
  \<comment> \<open>The loader run from its start to its return, nothing else running in between.\<close>
  "load_game_resources g = bind_result (load_steps [0..<total_steps] g) load_finish"

definition resume_task :: "game \<Rightarrow> game" where
  \<comment> \<open>The loader run from one suspension to the next, as the event loop resumes it.\<close>
  "resume_task g =
     (case load_task g of
        Some Created \<Rightarrow>
          (if 0 < total_steps then (emit [Sleep (3 / 10)] g)\<lparr>load_task := Some (Sleeping 0)\<rparr>
           else (case load_finish g of
                   Inl x \<Rightarrow> g\<lparr>load_task := Some (Failed x)\<rparr>
                 | Inr g1 \<Rightarrow> g1\<lparr>load_task := Some Finished\<rparr>))
      | Some (Sleeping i) \<Rightarrow>
          (case load_step i g of
             Inl x \<Rightarrow> g\<lparr>load_task := Some (Failed x)\<rparr>
           | Inr g1 \<Rightarrow>
               if i + 1 < total_steps
               then (emit [Sleep (3 / 10)] g1)\<lparr>load_task := Some (Sleeping (i + 1))\<rparr>
               else (case load_finish g1 of
                       Inl x \<Rightarrow> g1\<lparr>load_task := Some (Failed x)\<rparr>
                     | Inr g2 \<Rightarrow> g2\<lparr>load_task := Some Finished\<rparr>))
      | _ \<Rightarrow> g)"

definition handle_transition :: "env \<Rightarrow> game \<Rightarrow> error + (bool option \<times> game)" where
  \<comment> \<open>The result is Python's \<^verbatim>\<open>True\<close>, \<^verbatim>\<open>False\<close> or \<^verbatim>\<open>None\<close>.\<close>
  "handle_transition e g =
     (if pending_view g = Some ''game'' then
        (case transition_screen g of
           None \<Rightarrow> Inl AttributeError
         | Some ts0 \<Rightarrow>
             let ts = update_fade (fade_step e) ts0;
                 g1 = g\<lparr>transition_screen := Some ts\<rparr>
             in if active ts then
                  (if alpha ts < 255 then Inr (Some True, g1)
                   else if load_task g1 = None
                     then Inr (Some True,
                            g1\<lparr>load_task := Some Created,
                               tasks_created := tasks_created g1 + 1\<rparr>)
                     else Inr (Some True, g1))
                else
                  (if 0 < alpha ts then Inr (Some True, g1)
                   else if load_task g1 = None then Inl AttributeError
                   else Inr (Some False,
                          g1\<lparr>transition_screen := None, pending_view := None,
                             load_task := None\<rparr>)))
      else Inr (None, g))"

definition update :: "game \<Rightarrow> game" where
  "update g =
     (let g1 = emit [Fill] g;
          g2 = (case current_view g1 of
                  None \<Rightarrow> g1
                | Some r \<Rightarrow>
                    let g1a = (if r < length (views g1) \<and> kind (views g1 ! r) = SettingsK
                               then g1\<lparr>show_fps := view_show_fps (views g1 ! r)\<rparr>
                               else g1)
                    in emit [DrawView r] g1a)
      in case transition_screen g2 of
           None \<Rightarrow> g2
         | Some ts \<Rightarrow> emit [DrawOverlay ts] g2)"

definition toggle_fullscreen :: "env \<Rightarrow> game \<Rightarrow> error + game" where
  "toggle_fullscreen e g =
     (let g1 = g\<lparr>fullscreen := \<not> fullscreen g\<rparr>;
          g2 = (if fullscreen g1
                then (let g1a = g1\<lparr>windowed_size := (WIDTH g1, HEIGHT g1)\<rparr>
                      in g1a\<lparr>WIDTH := fst (native_size e), HEIGHT := snd (native_size e)\<rparr>)
                else g1\<lparr>WIDTH := fst (windowed_size g1), HEIGHT := snd (windowed_size g1)\<rparr>)
      in bind_result (handle_resize e g2)
           (\<lambda>g3. case transition_screen g3 of
                    None \<Rightarrow> Inr g3
                  | Some ts \<Rightarrow>
                      Inr (g3\<lparr>transition_screen :=
                                Some (update_screen_size (WIDTH g3) (HEIGHT g3) ts)\<rparr>)))"

definition return_to_game :: "game \<Rightarrow> game" where
  "return_to_game g =
     (case saved_game_view g of
        None \<Rightarrow> g
      | Some r \<Rightarrow>
          g\<lparr>current_view := Some r, mouse_visible := False, mouse_blocked := True,
            pending_view := None\<rparr>)"

subsection \<open>The main loop\<close>

datatype pg_event = QUIT | VIDEORESIZE int int | OtherEvent

text \<open>
  The events loop of \<^verbatim>\<open>run\<close>: the state and the flag \<open>running\<close>.
\<close>

fun process_events :: "env \<Rightarrow> pg_event list \<Rightarrow> game \<times> bool \<Rightarrow> error + (game \<times> bool)" where
  "process_events e [] (g, running) = Inr (g, running)"
| "process_events e (QUIT # evs) (g, running) = process_events e evs (g, False)"
| "process_events e (VIDEORESIZE w h # evs) (g, running) =
     (if \<not> fullscreen g then
        bind_result
          (handle_resize e (g\<lparr>WIDTH := w, HEIGHT := h, windowed_size := (w, h)\<rparr>))
          (\<lambda>g1. process_events e evs (g1, running))
      else process_events e evs (g, running))"
| "process_events e (OtherEvent # evs) (g, running) = process_events e evs (g, running)"

text \<open>
  The view classes are not among the sources: what \<^verbatim>\<open>handle_events\<close> of the current
  view does to the orchestrator is the list of callbacks it invokes, among those it
  was constructed with.
\<close>

datatype callback = CallSwitchView string | CallToggleFullscreen | CallReturnToGame

fun run_callbacks :: "env \<Rightarrow> callback list \<Rightarrow> game \<Rightarrow> error + game" where
  "run_callbacks e [] g = Inr g"
| "run_callbacks e (CallSwitchView n # cs) g =
     bind_result (switch_view e n g) (run_callbacks e cs)"
| "run_callbacks e (CallToggleFullscreen # cs) g =
     bind_result (toggle_fullscreen e g) (run_callbacks e cs)"
| "run_callbacks e (CallReturnToGame # cs) g = run_callbacks e cs (return_to_game g)"

text \<open>
  One iteration of the loop of \<^verbatim>\<open>run\<close>. \<open>events\<close> is what \<^verbatim>\<open>pygame.event.get()\<close>
  returns, \<open>ready\<close> says whether the loader is resumed at \<^verbatim>\<open>await asyncio.sleep(0)\<close>
  (a created task always is, a pausing one once its pause is over), and \<open>cbs\<close> are
  the callbacks the current view invokes for these events.
  The result is the state and the flag \<open>running\<close>. The delta time and \<^verbatim>\<open>update(dt)\<close> of
  the current view are left out: they change the inside of the view only.
\<close>

definition loop_iteration ::
  "env \<Rightarrow> pg_event list \<Rightarrow> bool \<Rightarrow> callback list \<Rightarrow> game \<Rightarrow> error + (game \<times> bool)" where
  "loop_iteration e events ready cbs g =
     (let g1 = emit [Pump] g;
          g2 = (if ready \<or> load_task g1 = Some Created then resume_task g1 else g1)
      in bind_result
           (if transition_screen g2 \<noteq> None then handle_transition e g2
            else Inr (None, g2))
           (\<lambda>(r, g3).
              if transition_screen g2 \<noteq> None \<and> r = Some True
              then bind_result (render_transition g3) (\<lambda>g4. Inr (g4, True))
              else bind_result (process_events e events (g3, True))
                     (\<lambda>(g4, running).
                        bind_result
                          (if current_view g4 \<noteq> None then run_callbacks e cbs g4
                           else Inr g4)
                          (\<lambda>g5. Inr (emit [Flip, Tick (FPS g5)] (update g5), running)))))"

definition Game :: "env \<Rightarrow> int \<Rightarrow> int \<Rightarrow> error + game" where
  \<comment> \<open>The constructor; the arguments are \<^verbatim>\<open>const.width\<close> and \<open>const.height\<close>.\<close>
  "Game e w h =
     bind_result
       (switch_view e ''main''
          \<lparr>design_width = w, design_height = h, WIDTH = w, HEIGHT = h, FPS = 60,
           fullscreen = False, show_fps = True, windowed_size = (w, h), font = None,
           current_view = None, transition_screen = None, pending_view = None,
           saved_game_view = None, load_task = None, mouse_visible = True,
           mouse_blocked = False, views = [], tasks_created = 0, trace = []\<rparr>)
       (handle_resize e)"

section \<open>Well-formed states\<close>

text \<open>
  The states the orchestrator can be in: the design size, a constant of the program, is
  not zero in either dimension (\<^verbatim>\<open>handle_resize\<close> divides by it), and the references
  the orchestrator holds point into the store.
\<close>

definition view_ok :: "view \<Rightarrow> bool" where
  "view_ok v = (kind v = GameViewK \<or> (view_design_width v \<noteq> 0 \<and> view_design_height v \<noteq> 0))"

definition ref_ok :: "nat option \<Rightarrow> nat \<Rightarrow> bool" where
  "ref_ok r n = (case r of None \<Rightarrow> True | Some i \<Rightarrow> i < n)"

definition wf_game :: "game \<Rightarrow> bool" where
  "wf_game g =
     (design_width g \<noteq> 0 \<and> design_height g \<noteq> 0 \<and> list_all view_ok (views g) \<and>
      ref_ok (current_view g) (length (views g)) \<and>
      ref_ok (saved_game_view g) (length (views g)))"

section \<open>Example states\<close>

definition example_env :: env where
  "example_env =
     \<lparr>font_medium = 24, native_size = (1920, 1080), fade_step = 5,
      menu_buttons = [Button ''Play'' 300 200 200 50 False],
      settings_buttons = [Button ''Back'' 300 400 200 50 True]\<rparr>"

definition example_game :: game where
  "example_game =
     \<lparr>design_width = 800, design_height = 600, WIDTH = 800, HEIGHT = 600, FPS = 60,
      fullscreen = False, show_fps = True, windowed_size = (800, 600), font = Some 24,
      current_view = Some 0, transition_screen = None, pending_view = None,
      saved_game_view = None, load_task = None, mouse_visible = True,
      mouse_blocked = False,
      views = [(MainMenu example_env 800 600)\<lparr>view_size := Some (800, 600)\<rparr>],
      tasks_created = 0, trace = []\<rparr>"

definition example_playing :: game where
  "example_playing =
     example_game\<lparr>current_view := Some 1,
       views := views example_game @ [GameView (Some 24) True],
       mouse_visible := False, mouse_blocked := True\<rparr>"

section \<open>Runs of the main loop\<close>

text \<open>
  The loop of \<^verbatim>\<open>run\<close> over a list of inputs, one per iteration; it ends with the list or
  when an iteration clears \<open>running\<close> (the program then quits). A run stays within one
  transition when no callback requests a game start.
\<close>

fun requests_game :: "callback \<Rightarrow> bool" where
  "requests_game (CallSwitchView n) = (n = ''game'')"
| "requests_game CallToggleFullscreen = False"
| "requests_game CallReturnToGame = False"

fun run_loop ::
  "env \<Rightarrow> (pg_event list \<times> bool \<times> callback list) list \<Rightarrow> game \<Rightarrow> error + game" where
  "run_loop e [] g = Inr g"
| "run_loop e ((events, ready, cbs) # rest) g =
     bind_result (loop_iteration e events ready cbs g)
       (\<lambda>(g1, running). if running then run_loop e rest g1 else Inr g1)"

fun no_new_transition :: "(pg_event list \<times> bool \<times> callback list) list \<Rightarrow> bool" where
  "no_new_transition [] = True"
| "no_new_transition ((events, ready, cbs) # rest) =
     (list_all (\<lambda>c. \<not> requests_game c) cbs \<and> no_new_transition rest)"

text \<open>
  The number of load tasks the state may still create: one when a game start is pending
  and the attribute \<open>load_task\<close> is absent. \<open>task_key\<close> is the part of the state it
  depends on, with the count of tasks created.
\<close>

definition may_create :: "game \<Rightarrow> nat" where
  "may_create g = (if pending_view g = Some ''game'' \<and> load_task g = None then 1 else 0)"

definition task_key :: "game \<Rightarrow> string option \<times> bool \<times> nat" where
  "task_key g = (pending_view g, load_task g = None, tasks_created g)"

definition example_fast_env :: env where
  "example_fast_env = example_env\<lparr>fade_step := 255\<rparr>"

definition example_inputs :: "(pg_event list \<times> bool \<times> callback list) list" where
  "example_inputs =
     ([], False, []) # replicate 6 ([], True, []) @
     [([VIDEORESIZE 1024 768], True, [CallSwitchView ''settings'']), ([], True, [])]"

definition example_loading :: game where
  "example_loading =
     example_game\<lparr>pending_view := Some ''game'',
       transition_screen := Some (LoadingScreen 800 600 800 600)\<rparr>"

text \<open>
  The trace of one step of the loader on the state \<open>g\<close> with the overlay \<open>ts\<close>: the
  pause, then the out-of-band render with the progress of the step, then the pump.
\<close>

definition draw_current_view :: "game \<Rightarrow> io list" where
  "draw_current_view g = (case current_view g of None \<Rightarrow> [] | Some r \<Rightarrow> [DrawView r])"

definition step_trace :: "game \<Rightarrow> loading_screen \<Rightarrow> nat \<Rightarrow> io list" where
  "step_trace g ts i =
     [Sleep (3 / 10), Fill] @ draw_current_view g @
     [DrawOverlay (ts\<lparr>progress := (int i + 1) * 20\<rparr>), Flip, Tick 60, Pump]"

text \<open>
  Observations of a state: the class of the current view, the overlays drawn so far,
  the geometry of the overlay.
\<close>

definition current_kind :: "game \<Rightarrow> view_kind option" where
  "current_kind g = map_option (\<lambda>r. kind (views g ! r)) (current_view g)"

definition overlay_draws :: "game \<Rightarrow> loading_screen list" where
  "overlay_draws g = [ts. DrawOverlay ts \<leftarrow> trace g]"

definition overlay_size :: "game \<Rightarrow> (int \<times> int) option" where
  "overlay_size g = map_option (\<lambda>ts. (current_width ts, current_height ts)) (transition_screen g)"

definition example_abandoned :: "error + game" where
  "example_abandoned =
     bind_result (run_loop example_fast_env (replicate 2 ([], False, [])) example_loading)
       (switch_view example_fast_env ''main'')"

section \<open>Rectangles of buttons\<close>

text \<open>
  The rectangle of a button, and the rectangle that \<open>resize\<close> computes from the
  original one and the two factors.
\<close>

definition scaled_rect :: "rat \<Rightarrow> rat \<Rightarrow> button \<Rightarrow> int \<times> int \<times> int \<times> int" where
  "scaled_rect sx sy b =
     (py_int (original_x b * sx), py_int (original_y b * sy),
      py_int (original_width b * sx), py_int (original_height b * sy))"

definition rect :: "button \<Rightarrow> int \<times> int \<times> int \<times> int" where
  "rect b = (rect_x b, rect_y b, rect_width b, rect_height b)"

section \<open>The player (player/player.py)\<close>



datatype content = Blank | Filled int int int | Decoded string | Scaled content
  | Mirrored content

record surface =
  surf_width :: int
  surf_height :: int
  surf_content :: content



record frame =
  original :: surface
  flipped :: surface

datatype message = PathDoesNotExist string | ErrorLoadingFrame string
  | LoadedFrames nat string | NoFramesLoaded string | ErrorProcessingAnimation string
  | UsingPlaceholder | SetDefaultSpeed string | AnimationNotFound string
  | AnimationState string int | ChangedAnimation string

record player =
  speed :: rat
  scale :: rat
  animation_frames :: "(string \<times> frame list) list"
  animation_speeds :: "(string \<times> rat) list"
  current_animation :: string
  frame_index :: int
  animation_timer :: rat
  direction :: "rat \<times> rat"
  facing_right :: bool
  image_surface :: surface
  center :: "rat \<times> rat"
  debug :: "bool option"
  printed :: "message list"

definition print :: "message \<Rightarrow> player \<Rightarrow> player" where
  "print m p = p\<lparr>printed := printed p @ [m]\<rparr>"

































section \<open>What the constructor loads, and the invariant of a player\<close>




text \<open>
  The invariant of the class: \<open>debug\<close> is set, no frame list of the table is empty, and
  \<open>frame_index\<close> is an index into the frame list of the current animation when the
  table has it.
\<close>

definition index_ok :: "frame list option \<Rightarrow> int \<Rightarrow> bool" where
  "index_ok frames i =
     (case frames of None \<Rightarrow> True | Some fr \<Rightarrow> 0 \<le> i \<and> i < int (length fr))"

definition player_inv :: "player \<Rightarrow> bool" where
  "player_inv p =
     (debug p \<noteq> None \<and> list_all (\<lambda>(n, fr). fr \<noteq> []) (animation_frames p) \<and>
      index_ok (map_of (animation_frames p) (current_animation p)) (frame_index p))"





section \<open>Properties of the orchestrator\<close>

subsection \<open>Resizing\<close>

lemma view_handle_resize_ok:
  assumes "view_ok v"
  shows "\<exists>v'. view_handle_resize w h v = Inr v' \<and> kind v' = kind v \<and> view_ok v'"
  using assms
  by (auto simp: view_handle_resize_def view_ok_def uniform_scale_def bind_result_def)

lemma handle_resize_ok:
  assumes "wf_game g"
  shows "\<exists>g'. handle_resize e g = Inr g' \<and> g' = g\<lparr>font := font g', views := views g'\<rparr> \<and>
           length (views g') = length (views g) \<and> list_all view_ok (views g') \<and>
           (\<forall>i. current_view g \<noteq> Some i \<longrightarrow> views g' ! i = views g ! i) \<and>
           (\<forall>i < length (views g). kind (views g' ! i) = kind (views g ! i))"
proof (cases "current_view g")
  case None
  with assms show ?thesis
    by (auto simp: handle_resize_def wf_game_def uniform_scale_def bind_result_def)
next
  case (Some r)
  with assms have r: "r < length (views g)" and ok: "view_ok (views g ! r)"
    by (auto simp: wf_game_def ref_ok_def list_all_length)
  from view_handle_resize_ok [OF ok, of "WIDTH g" "HEIGHT g"]
  obtain v' where v': "view_handle_resize (WIDTH g) (HEIGHT g) (views g ! r) = Inr v'"
    "kind v' = kind (views g ! r)" "view_ok v'" by blast
  have "list_all view_ok ((views g)[r := v'])"
    using assms v'(3) r by (auto simp: wf_game_def list_all_length nth_list_update)
  moreover have "\<forall>i < length (views g). kind ((views g)[r := v'] ! i) = kind (views g ! i)"
    using v'(2) r by (auto simp: nth_list_update)
  ultimately show ?thesis
    using assms Some r v'(1)
    by (auto simp: handle_resize_def wf_game_def uniform_scale_def bind_result_def)
qed

lemma handle_resize_wf:
  assumes "wf_game g" "handle_resize e g = Inr g'"
  shows "wf_game g'"
proof -
  from handle_resize_ok [OF assms(1), of e] assms(2)
  have eq: "g' = g\<lparr>font := font g', views := views g'\<rparr>"
    and len: "length (views g') = length (views g)" and ok: "list_all view_ok (views g')"
    by auto
  have "design_width g' = design_width g" "design_height g' = design_height g"
    "current_view g' = current_view g" "saved_game_view g' = saved_game_view g"
    by (subst eq, simp)+
  with assms(1) len ok show ?thesis
    by (simp add: wf_game_def)
qed

lemma handle_resize_frame:
  assumes "wf_game g"
  obtains g' where "handle_resize e g = Inr g'" "wf_game g'"
    "WIDTH g' = WIDTH g" "HEIGHT g' = HEIGHT g" "fullscreen g' = fullscreen g"
    "windowed_size g' = windowed_size g" "current_view g' = current_view g"
    "transition_screen g' = transition_screen g" "pending_view g' = pending_view g"
    "saved_game_view g' = saved_game_view g" "load_task g' = load_task g"
    "mouse_visible g' = mouse_visible g" "mouse_blocked g' = mouse_blocked g"
    "tasks_created g' = tasks_created g" "trace g' = trace g"
    "length (views g') = length (views g)"
    "\<And>i. current_view g \<noteq> Some i \<Longrightarrow> views g' ! i = views g ! i"
    "\<And>i. i < length (views g) \<Longrightarrow> kind (views g' ! i) = kind (views g ! i)"
proof -
  from handle_resize_ok [OF assms, of e] obtain g' where
    h: "handle_resize e g = Inr g'" and eq: "g' = g\<lparr>font := font g', views := views g'\<rparr>"
    and rest: "length (views g') = length (views g)"
      "\<forall>i. current_view g \<noteq> Some i \<longrightarrow> views g' ! i = views g ! i"
      "\<forall>i < length (views g). kind (views g' ! i) = kind (views g ! i)"
    by blast
  have "WIDTH g' = WIDTH g" "HEIGHT g' = HEIGHT g" "fullscreen g' = fullscreen g"
    "windowed_size g' = windowed_size g" "current_view g' = current_view g"
    "transition_screen g' = transition_screen g" "pending_view g' = pending_view g"
    "saved_game_view g' = saved_game_view g" "load_task g' = load_task g"
    "mouse_visible g' = mouse_visible g" "mouse_blocked g' = mouse_blocked g"
    "tasks_created g' = tasks_created g" "trace g' = trace g"
    by (subst eq, simp)+
  with h handle_resize_wf [OF assms h] rest that show thesis
    by blast
qed

lemma py_int_of_int [simp]: "py_int (of_int k) = k"
  by (simp add: py_int_def)

lemma py_int_numeral [simp]: "py_int (numeral k) = numeral k"
  using py_int_of_int [of "numeral k"] by simp

lemma Game_example: "Game example_env 800 600 = Inr example_game"
  by (simp add: Game_def example_env_def example_game_def switch_view_def handle_resize_def
      new_view_def MainMenu_def uniform_scale_def bind_result_def view_handle_resize_def
      Button_def resize_def Let_def)

lemma wf_example_game: "wf_game example_game"
  by (simp add: wf_game_def example_game_def view_ok_def ref_ok_def MainMenu_def)

lemma wf_example_playing: "wf_game example_playing"
  by (simp add: wf_game_def example_game_def example_playing_def view_ok_def ref_ok_def
      MainMenu_def GameView_def)

subsection \<open>Fullscreen\<close>

lemma toggle_fullscreen_enter:
  assumes "wf_game g" "\<not> fullscreen g"
  shows "\<exists>g1. toggle_fullscreen e g = Inr g1 \<and> wf_game g1 \<and> fullscreen g1 \<and>
           windowed_size g1 = (WIDTH g, HEIGHT g) \<and>
           (WIDTH g1, HEIGHT g1) = native_size e"
proof -
  let ?g2 = "g\<lparr>fullscreen := True, windowed_size := (WIDTH g, HEIGHT g),
               WIDTH := fst (native_size e), HEIGHT := snd (native_size e)\<rparr>"
  have wf: "wf_game ?g2"
    using assms(1) by (simp add: wf_game_def)
  from handle_resize_frame [OF wf, of e] obtain g3 where g3:
    "handle_resize e ?g2 = Inr g3" "wf_game g3" "WIDTH g3 = WIDTH ?g2"
    "HEIGHT g3 = HEIGHT ?g2" "fullscreen g3 = fullscreen ?g2"
    "windowed_size g3 = windowed_size ?g2"
    by metis
  have wf_ts: "\<And>ts. wf_game (g3\<lparr>transition_screen := ts\<rparr>)"
    using g3(2) by (simp add: wf_game_def)
  show ?thesis
    using assms(2) g3 wf_ts
    by (cases "transition_screen g3")
      (simp_all add: toggle_fullscreen_def Let_def bind_result_def)
qed

lemma toggle_fullscreen_exit:
  assumes "wf_game g" "fullscreen g"
  shows "\<exists>g2. toggle_fullscreen e g = Inr g2 \<and> wf_game g2 \<and> \<not> fullscreen g2 \<and>
           windowed_size g2 = windowed_size g \<and>
           (WIDTH g2, HEIGHT g2) = windowed_size g"
proof -
  let ?g2 = "g\<lparr>fullscreen := False, WIDTH := fst (windowed_size g),
               HEIGHT := snd (windowed_size g)\<rparr>"
  have wf: "wf_game ?g2"
    using assms(1) by (simp add: wf_game_def)
  from handle_resize_frame [OF wf, of e] obtain g3 where g3:
    "handle_resize e ?g2 = Inr g3" "wf_game g3" "WIDTH g3 = WIDTH ?g2"
    "HEIGHT g3 = HEIGHT ?g2" "fullscreen g3 = fullscreen ?g2"
    "windowed_size g3 = windowed_size ?g2"
    by metis
  have wf_ts: "\<And>ts. wf_game (g3\<lparr>transition_screen := ts\<rparr>)"
    using g3(2) by (simp add: wf_game_def)
  show ?thesis
    using assms(2) g3 wf_ts
    by (cases "transition_screen g3")
      (simp_all add: toggle_fullscreen_def Let_def bind_result_def)
qed

lemma process_events_fullscreen:
  assumes "fullscreen g"
  shows "process_events e evs (g, r) = Inr (g, r \<and> QUIT \<notin> set evs)"
  using assms
proof (induction evs arbitrary: r)
  case Nil
  then show ?case by simp
next
  case (Cons ev evs)
  then show ?case by (cases ev) auto
qed

text \<open>
  Claim C5. From a windowed state of size \<open>(w, h)\<close>, entering fullscreen and leaving it
  again, with any resize notifications in between (all arriving while fullscreen),
  leaves the recorded window size exactly \<open>(w, h)\<close>: the size and the remembered
  windowed size are the ones before the first toggle, not the size the system reported
  for the fullscreen window.
\<close>

theorem toggle_fullscreen_round_trip:
  assumes "wf_game g" and "\<not> fullscreen g"
  shows "\<exists>g1 g2. toggle_fullscreen e g = Inr g1 \<and> fullscreen g1 \<and>
           (WIDTH g1, HEIGHT g1) = native_size e \<and>
           process_events e evs (g1, True) = Inr (g1, QUIT \<notin> set evs) \<and>
           toggle_fullscreen e g1 = Inr g2 \<and> \<not> fullscreen g2 \<and>
           WIDTH g2 = WIDTH g \<and> HEIGHT g2 = HEIGHT g \<and>
           windowed_size g2 = (WIDTH g, HEIGHT g)"
proof -
  from toggle_fullscreen_enter [OF assms, of e] obtain g1 where g1:
    "toggle_fullscreen e g = Inr g1" "wf_game g1" "fullscreen g1"
    "windowed_size g1 = (WIDTH g, HEIGHT g)" "(WIDTH g1, HEIGHT g1) = native_size e"
    by blast
  from toggle_fullscreen_exit [OF g1(2,3), of e] obtain g2 where g2:
    "toggle_fullscreen e g1 = Inr g2" "\<not> fullscreen g2"
    "windowed_size g2 = windowed_size g1" "(WIDTH g2, HEIGHT g2) = windowed_size g1"
    by blast
  from process_events_fullscreen [OF g1(3), of e evs True]
  have "process_events e evs (g1, True) = Inr (g1, QUIT \<notin> set evs)" by simp
  with g1 g2 show ?thesis by auto
qed

theorem toggle_fullscreen_round_trip_witness:
  "wf_game example_game \<and> \<not> fullscreen example_game \<and>
   (\<exists>g1 g2. toggle_fullscreen example_env example_game = Inr g1 \<and>
      (WIDTH g1, HEIGHT g1) = (1920, 1080) \<and>
      process_events example_env [VIDEORESIZE 1024 768] (g1, True) = Inr (g1, True) \<and>
      toggle_fullscreen example_env g1 = Inr g2 \<and>
      WIDTH g2 = 800 \<and> HEIGHT g2 = 600 \<and> windowed_size g2 = (800, 600))"
proof -
  have nf: "\<not> fullscreen example_game"
    by (simp add: example_game_def)
  from toggle_fullscreen_round_trip [OF wf_example_game nf, of example_env
      "[VIDEORESIZE 1024 768]"]
  show ?thesis
    using wf_example_game nf by (auto simp: example_game_def example_env_def)
qed

text \<open>
  Claim C6. A resize notification processed by the loop is ignored while fullscreen is
  active: the state, and so the width, the height and the remembered windowed size,
  is unchanged. While windowed, the current size and the remembered windowed size both
  become the event's \<open>(w, h)\<close>.
\<close>

theorem resize_notification:
  assumes "wf_game g"
  shows "\<exists>g'. process_events e [VIDEORESIZE w h] (g, running) = Inr (g', running) \<and>
           (if fullscreen g then g' = g
            else WIDTH g' = w \<and> HEIGHT g' = h \<and> windowed_size g' = (w, h) \<and>
                 \<not> fullscreen g')"
proof (cases "fullscreen g")
  case True
  then show ?thesis by simp
next
  case False
  let ?g1 = "g\<lparr>WIDTH := w, HEIGHT := h, windowed_size := (w, h)\<rparr>"
  have wf: "wf_game ?g1"
    using assms by (simp add: wf_game_def)
  from handle_resize_frame [OF wf, of e] obtain g' where
    "handle_resize e ?g1 = Inr g'" "WIDTH g' = WIDTH ?g1" "HEIGHT g' = HEIGHT ?g1"
    "windowed_size g' = windowed_size ?g1" "fullscreen g' = fullscreen ?g1"
    by metis
  with False show ?thesis
    by (simp add: bind_result_def)
qed

theorem resize_notification_witness:
  "wf_game example_game \<and> \<not> fullscreen example_game \<and>
   (\<exists>g'. process_events example_env [VIDEORESIZE 1024 768] (example_game, True)
            = Inr (g', True) \<and>
      WIDTH g' = 1024 \<and> HEIGHT g' = 768 \<and> windowed_size g' = (1024, 768))"
proof -
  have nf: "\<not> fullscreen example_game"
    by (simp add: example_game_def)
  from resize_notification [OF wf_example_game, of example_env 1024 768 True]
  show ?thesis
    using wf_example_game nf by auto
qed

subsection \<open>Embedded settings\<close>

text \<open>
  Claim C7. When the current view is a game view, switching to the embedded settings
  and then returning to the game makes the current view the same object again (the same
  reference, the object itself untouched), hides the cursor again and blocks the mouse
  events again.
\<close>

theorem embedded_settings_round_trip:
  assumes "wf_game g" and "current_view g = Some r" and "kind (views g ! r) = GameViewK"
  shows "\<exists>g1 s. switch_view e ''ingame_settings'' g = Inr g1 \<and>
           current_view g1 = Some s \<and> s \<noteq> r \<and> kind (views g1 ! s) = SettingsK \<and>
           mouse_visible g1 \<and> \<not> mouse_blocked g1 \<and>
           current_view (return_to_game g1) = Some r \<and>
           views (return_to_game g1) ! r = views g ! r \<and>
           \<not> mouse_visible (return_to_game g1) \<and> mouse_blocked (return_to_game g1)"
proof -
  from assms have r: "r < length (views g)"
    by (simp add: wf_game_def ref_ok_def)
  let ?v = "Settings e (design_width g) (design_height g) (show_fps g) False True"
  let ?g5 = "g\<lparr>mouse_visible := True, saved_game_view := Some r,
              current_view := Some (length (views g)), views := views g @ [?v],
              mouse_blocked := False, pending_view := None\<rparr>"
  have sw: "switch_view e ''ingame_settings'' g = handle_resize e ?g5"
    using assms(2,3) r
    by (simp add: switch_view_def Let_def is_game_view_def new_view_def)
  have "view_ok ?v"
    using assms(1) by (simp add: view_ok_def wf_game_def Settings_def)
  with assms(1) r have wf: "wf_game ?g5"
    by (auto simp: wf_game_def ref_ok_def split: option.splits)
  show ?thesis
  proof (rule handle_resize_frame [OF wf, of e])
    fix g1
    assume g1: "handle_resize e ?g5 = Inr g1" "current_view g1 = current_view ?g5"
      "saved_game_view g1 = saved_game_view ?g5" "mouse_visible g1 = mouse_visible ?g5"
      "mouse_blocked g1 = mouse_blocked ?g5"
      and unchanged: "\<And>i. current_view ?g5 \<noteq> Some i \<Longrightarrow> views g1 ! i = views ?g5 ! i"
      and kinds: "\<And>i. i < length (views ?g5) \<Longrightarrow> kind (views g1 ! i) = kind (views ?g5 ! i)"
    have same: "views g1 ! r = views g ! r"
      using unchanged [of r] r by (simp add: nth_append)
    have k: "kind (views g1 ! length (views g)) = SettingsK"
      using kinds [of "length (views g)"] by (simp add: Settings_def)
    from g1 have "current_view g1 = Some (length (views g))" "saved_game_view g1 = Some r"
      "mouse_visible g1" "\<not> mouse_blocked g1"
      by simp_all
    with sw g1(1) same k r show ?thesis
      by (simp add: return_to_game_def)
  qed
qed

theorem embedded_settings_round_trip_witness:
  "wf_game example_playing \<and> current_view example_playing = Some 1 \<and>
   kind (views example_playing ! 1) = GameViewK \<and>
   (\<exists>g1. switch_view example_env ''ingame_settings'' example_playing = Inr g1 \<and>
      current_view g1 = Some 2 \<and>
      current_view (return_to_game g1) = Some 1 \<and>
      views (return_to_game g1) ! 1 = GameView (Some 24) True \<and>
      \<not> mouse_visible (return_to_game g1) \<and> mouse_blocked (return_to_game g1))"
proof -
  have c: "current_view example_playing = Some 1"
    and k: "kind (views example_playing ! 1) = GameViewK"
    and v: "views example_playing ! 1 = GameView (Some 24) True"
    by (simp_all add: example_playing_def example_game_def GameView_def)
  have sw: "\<exists>g1. switch_view example_env ''ingame_settings'' example_playing = Inr g1 \<and>
      current_view g1 = Some 2"
    by (simp add: switch_view_def Let_def is_game_view_def new_view_def example_playing_def
        example_game_def example_env_def GameView_def handle_resize_def uniform_scale_def
        bind_result_def view_handle_resize_def Settings_def)
  from embedded_settings_round_trip [OF wf_example_playing c k, of example_env] sw
  show ?thesis
    using wf_example_playing c k v by auto
qed

subsection \<open>The transition and its loader\<close>

lemma may_create_key: "task_key g' = task_key g \<Longrightarrow> tasks_created g' + may_create g' = tasks_created g + may_create g"
  by (auto simp: task_key_def may_create_def)

lemma task_key_update [simp]:
  "task_key (g\<lparr>transition_screen := a\<rparr>) = task_key g"
  "task_key (g\<lparr>trace := b\<rparr>) = task_key g"
  "task_key (g\<lparr>views := c\<rparr>) = task_key g"
  "task_key (g\<lparr>current_view := d\<rparr>) = task_key g"
  "task_key (g\<lparr>font := f\<rparr>) = task_key g"
  "task_key (g\<lparr>mouse_visible := m\<rparr>) = task_key g"
  "task_key (g\<lparr>mouse_blocked := n\<rparr>) = task_key g"
  "task_key (g\<lparr>WIDTH := w\<rparr>) = task_key g"
  "task_key (g\<lparr>HEIGHT := h\<rparr>) = task_key g"
  "task_key (g\<lparr>windowed_size := ws\<rparr>) = task_key g"
  "task_key (g\<lparr>fullscreen := fs\<rparr>) = task_key g"
  "task_key (g\<lparr>show_fps := sf\<rparr>) = task_key g"
  "task_key (g\<lparr>saved_game_view := sv\<rparr>) = task_key g"
  by (simp_all add: task_key_def)

lemma emit_key [simp]: "task_key (emit xs g) = task_key g"
  by (simp add: task_key_def emit_def)

lemma render_transition_key: "render_transition g = Inr g' \<Longrightarrow> task_key g' = task_key g"
  by (auto simp: render_transition_def Let_def split: option.splits)

lemma load_step_key: "load_step i g = Inr g' \<Longrightarrow> task_key g' = task_key g"
  by (auto simp: load_step_def bind_result_def dest!: render_transition_key
      split: option.splits sum.splits)

lemma load_finish_key: "load_finish g = Inr g' \<Longrightarrow> task_key g' = task_key g"
  by (auto simp: load_finish_def Let_def new_view_def split: option.splits)

lemma resume_task_key: "task_key (resume_task g) = task_key g"
proof (cases "load_task g")
  case None
  then show ?thesis by (simp add: resume_task_def)
next
  case (Some t)
  show ?thesis
  proof (cases t)
    case Created
    with Some show ?thesis
      by (auto simp: resume_task_def total_steps_def task_key_def emit_def)
  next
    case (Sleeping i)
    with Some show ?thesis
      by (auto simp: resume_task_def task_key_def emit_def
          dest!: load_step_key load_finish_key split: sum.splits)
  next
    case Finished
    with Some show ?thesis by (simp add: resume_task_def)
  next
    case (Failed x)
    with Some show ?thesis by (simp add: resume_task_def)
  qed
qed

lemma handle_transition_budget:
  assumes "handle_transition e g = Inr (r, g')"
  shows "tasks_created g' + may_create g' \<le> tasks_created g + may_create g"
  using assms
  by (auto simp: handle_transition_def Let_def may_create_def
      split: if_splits option.splits)

lemma handle_resize_key: "handle_resize e g = Inr g' \<Longrightarrow> task_key g' = task_key g"
  by (auto simp: handle_resize_def Let_def bind_result_def
      split: option.splits sum.splits if_splits)

lemma process_events_key:
  "process_events e evs (g, r) = Inr (g', r') \<Longrightarrow> task_key g' = task_key g"
proof (induction evs arbitrary: g r)
  case Nil
  then show ?case by simp
next
  case (Cons ev evs)
  show ?case
  proof (cases ev)
    case QUIT
    with Cons show ?thesis by simp
  next
    case (VIDEORESIZE w h)
    show ?thesis
    proof (cases "fullscreen g")
      case True
      with Cons VIDEORESIZE show ?thesis by simp
    next
      case False
      with Cons.prems VIDEORESIZE obtain g1 where
        h: "handle_resize e (g\<lparr>WIDTH := w, HEIGHT := h, windowed_size := (w, h)\<rparr>) = Inr g1"
        and p: "process_events e evs (g1, r) = Inr (g', r')"
        by (auto simp: bind_result_def split: sum.splits)
      from handle_resize_key [OF h] Cons.IH [OF p] show ?thesis
        by simp
    qed
  next
    case OtherEvent
    with Cons show ?thesis by simp
  qed
qed

lemma switch_view_budget:
  assumes "switch_view e n g = Inr g'" and "n \<noteq> ''game''"
  shows "tasks_created g' + may_create g' \<le> tasks_created g + may_create g"
proof -
  from assms obtain g0 where h: "handle_resize e g0 = Inr g'"
    and g0: "tasks_created g0 = tasks_created g" "load_task g0 = load_task g"
      "pending_view g0 = pending_view g \<or> pending_view g0 = None"
    by (auto simp: switch_view_def Let_def new_view_def split: if_splits)
  from handle_resize_key [OF h] have "tasks_created g' = tasks_created g0"
    "(load_task g' = None) = (load_task g0 = None)" "pending_view g' = pending_view g0"
    by (simp_all add: task_key_def)
  with g0 show ?thesis
    by (auto simp: may_create_def)
qed

lemma toggle_fullscreen_key:
  "toggle_fullscreen e g = Inr g' \<Longrightarrow> task_key g' = task_key g"
  by (auto simp: toggle_fullscreen_def Let_def bind_result_def
      dest!: handle_resize_key split: sum.splits option.splits if_splits)

lemma return_to_game_budget:
  "tasks_created (return_to_game g) + may_create (return_to_game g)
     \<le> tasks_created g + may_create g"
  by (auto simp: return_to_game_def may_create_def split: option.splits)

lemma update_key: "task_key (update g) = task_key g"
  by (auto simp: update_def Let_def split: option.splits)

lemma run_callbacks_budget:
  assumes "run_callbacks e cbs g = Inr g'" and "list_all (\<lambda>c. \<not> requests_game c) cbs"
  shows "tasks_created g' + may_create g' \<le> tasks_created g + may_create g"
  using assms
proof (induction cbs arbitrary: g)
  case Nil
  then show ?case by simp
next
  case (Cons c cbs)
  show ?case
  proof (cases c)
    case (CallSwitchView n)
    with Cons.prems obtain g1 where s: "switch_view e n g = Inr g1"
      and r: "run_callbacks e cbs g1 = Inr g'" and n: "n \<noteq> ''game''"
      by (auto simp: bind_result_def split: sum.splits)
    from switch_view_budget [OF s n] Cons.IH [OF r] Cons.prems(2) show ?thesis
      by simp
  next
    case CallToggleFullscreen
    with Cons.prems obtain g1 where s: "toggle_fullscreen e g = Inr g1"
      and r: "run_callbacks e cbs g1 = Inr g'"
      by (auto simp: bind_result_def split: sum.splits)
    from may_create_key [OF toggle_fullscreen_key [OF s]] Cons.IH [OF r] Cons.prems(2)
    show ?thesis by simp
  next
    case CallReturnToGame
    with Cons.prems have r: "run_callbacks e cbs (return_to_game g) = Inr g'"
      by simp
    from return_to_game_budget [of g] Cons.IH [OF r] Cons.prems(2) show ?thesis
      by simp
  qed
qed

lemma loop_iteration_budget:
  assumes "loop_iteration e events ready cbs g = Inr (g', running)"
    and "list_all (\<lambda>c. \<not> requests_game c) cbs"
  shows "tasks_created g' + may_create g' \<le> tasks_created g + may_create g"
proof -
  define g2 where
    "g2 = (if ready \<or> load_task (emit [Pump] g) = Some Created
           then resume_task (emit [Pump] g) else emit [Pump] g)"
  have k2: "task_key g2 = task_key g"
    by (simp add: g2_def resume_task_key)
  have eq: "loop_iteration e events ready cbs g =
      bind_result
        (if transition_screen g2 \<noteq> None then handle_transition e g2 else Inr (None, g2))
        (\<lambda>(r, g3).
           if transition_screen g2 \<noteq> None \<and> r = Some True
           then bind_result (render_transition g3) (\<lambda>g4. Inr (g4, True))
           else bind_result (process_events e events (g3, True))
                  (\<lambda>(g4, running).
                     bind_result
                       (if current_view g4 \<noteq> None then run_callbacks e cbs g4
                        else Inr g4)
                       (\<lambda>g5. Inr (emit [Flip, Tick (FPS g5)] (update g5), running))))"
    unfolding loop_iteration_def Let_def g2_def ..
  from assms(1) [unfolded eq] obtain r g3 where
    ht: "(if transition_screen g2 \<noteq> None then handle_transition e g2 else Inr (None, g2))
           = Inr (r, g3)"
    and rest: "(if transition_screen g2 \<noteq> None \<and> r = Some True
          then bind_result (render_transition g3) (\<lambda>g4. Inr (g4, True))
          else bind_result (process_events e events (g3, True))
                 (\<lambda>(g4, running).
                    bind_result
                      (if current_view g4 \<noteq> None then run_callbacks e cbs g4 else Inr g4)
                      (\<lambda>g5. Inr (emit [Flip, Tick (FPS g5)] (update g5), running))))
           = Inr (g', running)"
    unfolding bind_result_def by (auto split: sum.splits)
  have b3: "tasks_created g3 + may_create g3 \<le> tasks_created g2 + may_create g2"
    using ht handle_transition_budget [of e g2 r g3]
    by (auto split: if_splits)
  have b4: "tasks_created g' + may_create g' \<le> tasks_created g3 + may_create g3"
  proof (cases "transition_screen g2 \<noteq> None \<and> r = Some True")
    case True
    with rest obtain g4 where "render_transition g3 = Inr g4" "g' = g4"
      by (auto simp: bind_result_def split: sum.splits)
    with may_create_key [OF render_transition_key] show ?thesis by simp
  next
    case False
    with rest obtain g4 g5 where pe: "process_events e events (g3, True) = Inr (g4, running)"
      and cb: "(if current_view g4 \<noteq> None then run_callbacks e cbs g4 else Inr g4) = Inr g5"
      and g': "g' = emit [Flip, Tick (FPS g5)] (update g5)"
      by (auto simp: bind_result_def split: sum.splits prod.splits)
    have "tasks_created g5 + may_create g5 \<le> tasks_created g4 + may_create g4"
      using cb run_callbacks_budget [of e cbs g4 g5] assms(2)
      by (auto split: if_splits)
    moreover have "tasks_created g4 + may_create g4 = tasks_created g3 + may_create g3"
      using may_create_key [OF process_events_key [OF pe]] .
    moreover have "tasks_created g' + may_create g' = tasks_created g5 + may_create g5"
      unfolding g' by (rule may_create_key) (simp add: update_key)
    ultimately show ?thesis by simp
  qed
  from b3 b4 may_create_key [OF k2] show ?thesis by simp
qed

lemma run_loop_budget:
  assumes "run_loop e inputs g = Inr g'" and "no_new_transition inputs"
  shows "tasks_created g' + may_create g' \<le> tasks_created g + may_create g"
  using assms
proof (induction inputs arbitrary: g)
  case Nil
  then show ?case by simp
next
  case (Cons x inputs)
  obtain events ready cbs where x: "x = (events, ready, cbs)"
    by (cases x) auto
  with Cons.prems obtain g1 running where
    it: "loop_iteration e events ready cbs g = Inr (g1, running)"
    and rest: "(if running then run_loop e inputs g1 else Inr g1) = Inr g'"
    by (auto simp: bind_result_def split: sum.splits)
  from Cons.prems(2) x have ok: "list_all (\<lambda>c. \<not> requests_game c) cbs"
    and ok': "no_new_transition inputs"
    by simp_all
  have "tasks_created g' + may_create g' \<le> tasks_created g1 + may_create g1"
    using rest Cons.IH [OF _ ok', of g1] by (auto split: if_splits)
  with loop_iteration_budget [OF it ok] show ?case by simp
qed

lemma load_task_kept_until_completion:
  assumes "handle_transition e g = Inr (r, g')" and "load_task g \<noteq> None"
    and "load_task g' = None"
  shows "r = Some False \<and> transition_screen g' = None \<and> pending_view g' = None"
  using assms
  by (auto simp: handle_transition_def Let_def split: if_splits option.splits)

text \<open>
  Claim C3. Over any number of iterations of the main loop in which no view requests a
  new game start, whatever the events, the callbacks and the moments at which the
  loader is resumed, \<^verbatim>\<open>asyncio.create_task\<close> is called at most once; it is not called
  at all when no game-start transition is pending or when the attribute \<open>load_task\<close>
  is already present. (\<open>load_task_kept_until_completion\<close>: the attribute is deleted only
  in the call that completes the transition.)
\<close>

theorem load_task_created_once:
  assumes "no_new_transition inputs" and "run_loop e inputs g = Inr g'"
  shows "tasks_created g' \<le> tasks_created g +
           (if pending_view g = Some ''game'' \<and> load_task g = None then 1 else 0)"
  using run_loop_budget [OF assms(2,1)]
  by (auto simp: may_create_def split: if_splits)

lemma switch_view_game_example:
  "switch_view example_fast_env ''game'' example_game = Inr example_loading"
  by (simp add: example_fast_env_def example_env_def example_game_def example_loading_def
      switch_view_def handle_resize_def uniform_scale_def bind_result_def
      view_handle_resize_def Let_def MainMenu_def Button_def resize_def)

theorem load_task_created_once_witness:
  "no_new_transition example_inputs \<and>
   pending_view example_loading = Some ''game'' \<and> load_task example_loading = None \<and>
   (\<exists>g'. run_loop example_fast_env example_inputs example_loading = Inr g' \<and>
      tasks_created example_loading = 0 \<and> tasks_created g' = 1 \<and>
      pending_view g' = None \<and> load_task g' = None)"
proof -
  have n: "no_new_transition example_inputs"
    by code_simp
  have "map_sum id (\<lambda>g. (tasks_created g, pending_view g, load_task g))
          (run_loop example_fast_env example_inputs example_loading) = Inr (1, None, None)"
    by code_simp
  then obtain g' where g': "run_loop example_fast_env example_inputs example_loading = Inr g'"
    "tasks_created g' = 1" "pending_view g' = None" "load_task g' = None"
    by (cases "run_loop example_fast_env example_inputs example_loading") auto
  have s: "pending_view example_loading = Some ''game''" "load_task example_loading = None"
    "tasks_created example_loading = 0"
    by (simp_all add: example_loading_def example_game_def)
  from load_task_created_once [OF n g'(1)] g' s n show ?thesis
    by simp
qed

lemma load_step_eq:
  assumes "transition_screen g = Some ts"
  shows "load_step i (emit [Sleep (3 / 10)] g) =
           Inr (g\<lparr>transition_screen := Some (ts\<lparr>progress := (int i + 1) * 20\<rparr>),
                  trace := trace g @ step_trace g ts i\<rparr>)"
  using assms
  by (cases "current_view g")
    (simp_all add: load_step_def render_transition_def emit_def update_progress_def
      bind_result_def Let_def step_trace_def draw_current_view_def)

lemma step_trace_cong:
  "step_trace (g\<lparr>transition_screen := a, trace := b\<rparr>) (ts\<lparr>progress := p\<rparr>) = step_trace g ts"
  by (auto simp: step_trace_def draw_current_view_def fun_eq_iff)

lemma load_steps_eq:
  assumes "transition_screen g = Some ts"
  shows "load_steps js g =
           Inr (if js = [] then g
                else g\<lparr>transition_screen := Some (ts\<lparr>progress := (int (last js) + 1) * 20\<rparr>),
                       trace := trace g @ concat (map (step_trace g ts) js)\<rparr>)"
  using assms
proof (induction js arbitrary: g ts)
  case Nil
  then show ?case by simp
next
  case (Cons i js)
  let ?ts1 = "ts\<lparr>progress := (int i + 1) * 20\<rparr>"
  let ?g1 = "g\<lparr>transition_screen := Some ?ts1, trace := trace g @ step_trace g ts i\<rparr>"
  have ts1: "transition_screen ?g1 = Some ?ts1"
    by simp
  have "load_steps (i # js) g = load_steps js ?g1"
    using load_step_eq [OF Cons.prems, of i] by (simp add: bind_result_def)
  also have "\<dots> = Inr (if js = [] then ?g1
                else ?g1\<lparr>transition_screen := Some (?ts1\<lparr>progress := (int (last js) + 1) * 20\<rparr>),
                       trace := trace ?g1 @ concat (map (step_trace ?g1 ?ts1) js)\<rparr>)"
    by (rule Cons.IH [OF ts1])
  also have "\<dots> = Inr (g\<lparr>transition_screen :=
                           Some (ts\<lparr>progress := (int (last (i # js)) + 1) * 20\<rparr>),
                         trace := trace g @ concat (map (step_trace g ts) (i # js))\<rparr>)"
    by (simp add: step_trace_cong)
  finally show ?case by simp
qed

text \<open>
  Claim C2. A run of the loading task does exactly five steps, in order. Step \<open>i\<close>
  (from 0) pauses 0.3 seconds, then sets the progress of the overlay to \<open>(i + 1) * 20\<close>,
  then renders out of band (the old current view, then the overlay with the new
  progress), then pumps the event queue. Only after the fifth step, with the progress at
  100, is the game view constructed and made the current view, the mouse blocked and
  hidden, and the fade-out started (\<open>active\<close> becomes false).
\<close>

theorem load_game_resources_steps:
  assumes "transition_screen g = Some ts"
  shows "\<exists>g'. load_game_resources g = Inr g' \<and>
           trace g' = trace g @ concat (map (step_trace g ts) [0, 1, 2, 3, 4]) \<and>
           transition_screen g' = Some (ts\<lparr>progress := 100, active := False\<rparr>) \<and>
           views g' = views g @ [GameView (font g) (show_fps g)] \<and>
           current_view g' = Some (length (views g)) \<and>
           mouse_blocked g' \<and> \<not> mouse_visible g'"
proof -
  have l: "[0..<total_steps] = [0, 1, 2, 3, 4]"
    by (simp add: total_steps_def upt_rec)
  from load_steps_eq [OF assms, of "[0, 1, 2, 3, 4]"] l
  have "load_steps [0..<total_steps] g =
      Inr (g\<lparr>transition_screen := Some (ts\<lparr>progress := 100\<rparr>),
             trace := trace g @ concat (map (step_trace g ts) [0, 1, 2, 3, 4])\<rparr>)"
    by (simp add: total_steps_def)
  then show ?thesis
    by (simp add: load_game_resources_def bind_result_def load_finish_def Let_def new_view_def)
qed

theorem load_game_resources_steps_witness:
  "transition_screen example_loading = Some (LoadingScreen 800 600 800 600) \<and>
   (\<exists>g'. load_game_resources example_loading = Inr g' \<and>
      [p. DrawOverlay ts \<leftarrow> trace g', p \<leftarrow> [progress ts]] = [20, 40, 60, 80, 100] \<and>
      length (trace g') = 35 \<and>
      transition_screen g' =
        Some ((LoadingScreen 800 600 800 600)\<lparr>progress := 100, active := False\<rparr>) \<and>
      current_view g' = Some 1 \<and> kind (views g' ! 1) = GameViewK)"
proof -
  have t: "transition_screen example_loading = Some (LoadingScreen 800 600 800 600)"
    by (simp add: example_loading_def)
  have v: "trace example_loading = []" "length (views example_loading) = 1"
    "current_view example_loading = Some 0"
    by (simp_all add: example_loading_def example_game_def)
  from load_game_resources_steps [OF t] v t show ?thesis
    by (auto simp: step_trace_def draw_current_view_def GameView_def nth_append)
qed

lemma resume_task_created:
  assumes "load_task g = Some Created"
  shows "resume_task g = g\<lparr>trace := trace g @ [Sleep (3 / 10)], load_task := Some (Sleeping 0)\<rparr>"
  using assms by (simp add: resume_task_def total_steps_def emit_def)

lemma resume_task_step:
  assumes "load_task g = Some (Sleeping i)" and "transition_screen g = Some ts"
    and "i + 1 < total_steps"
  shows "resume_task g =
           g\<lparr>transition_screen := Some (ts\<lparr>progress := (int i + 1) * 20\<rparr>),
             trace := trace g @ [Fill] @ draw_current_view g @
               [DrawOverlay (ts\<lparr>progress := (int i + 1) * 20\<rparr>), Flip, Tick 60, Pump,
                Sleep (3 / 10)],
             load_task := Some (Sleeping (i + 1))\<rparr>"
  using assms
  by (cases "current_view g")
    (simp_all add: resume_task_def load_step_def render_transition_def emit_def
      update_progress_def bind_result_def Let_def draw_current_view_def)

lemma resume_task_last_step:
  assumes "load_task g = Some (Sleeping i)" and "transition_screen g = Some ts"
    and "i + 1 = total_steps"
  shows "resume_task g =
           g\<lparr>transition_screen := Some (ts\<lparr>progress := (int i + 1) * 20, active := False\<rparr>),
             trace := trace g @ [Fill] @ draw_current_view g @
               [DrawOverlay (ts\<lparr>progress := (int i + 1) * 20\<rparr>), Flip, Tick 60, Pump],
             current_view := Some (length (views g)),
             views := views g @ [GameView (font g) (show_fps g)],
             mouse_blocked := True, mouse_visible := False,
             load_task := Some Finished\<rparr>"
  using assms
  by (cases "current_view g")
    (simp_all add: resume_task_def load_step_def render_transition_def emit_def
      update_progress_def bind_result_def Let_def draw_current_view_def load_finish_def
      new_view_def)

lemma switch_view_main_frame:
  assumes "switch_view e ''main'' g = Inr g'"
  shows "pending_view g' = None \<and> transition_screen g' = transition_screen g \<and>
         load_task g' = load_task g \<and> current_view g' = Some (length (views g))"
proof -
  let ?g4 = "g\<lparr>mouse_visible := True, current_view := Some (length (views g)),
               views := views g @ [MainMenu e (design_width g) (design_height g)],
               mouse_blocked := False, pending_view := None\<rparr>"
  from assms have "handle_resize e ?g4 = Inr g'"
    by (simp add: switch_view_def Let_def new_view_def)
  then show ?thesis
    by (auto simp: handle_resize_def Let_def bind_result_def
        split: sum.splits option.splits if_splits)
qed

text \<open>
  Claim C1 fails on the code. A game start is requested and the loop runs twice (the
  overlay is opaque and the loader started); then the main menu is requested. The
  menu becomes the current view and the pending marker is cleared, but the overlay and
  the load task stay. In the five iterations that follow, the overlay is drawn ten more
  times, the abandoned loader runs to its end and replaces the menu by a game view.
\<close>

theorem switch_view_main_keeps_transition:
  "map_sum id (\<lambda>g. (current_kind g, pending_view g, map_option alpha (transition_screen g),
                     load_task g, length (overlay_draws g)))
     example_abandoned = Inr (Some MainMenuK, None, Some 255, Some (Sleeping 0), 2) \<and>
   map_sum id (\<lambda>g. (current_kind g, map_option alpha (transition_screen g), load_task g,
                     length (overlay_draws g)))
     (bind_result example_abandoned
        (run_loop example_fast_env (replicate 5 ([], True, []))))
     = Inr (Some GameViewK, Some 255, Some Finished, 12)"
  by code_simp

lemma loop_iteration_transition:
  assumes "load_task g \<noteq> Some Created" and "transition_screen g \<noteq> None"
    and "handle_transition e (emit [Pump] g) = Inr (Some True, g3)"
  shows "loop_iteration e events False cbs g =
           bind_result (render_transition g3) (\<lambda>g4. Inr (g4, True))"
  using assms
  by (simp add: loop_iteration_def Let_def emit_def bind_result_def)

lemma toggle_fullscreen_updates_overlay:
  assumes "toggle_fullscreen e g = Inr g'" and "transition_screen g = Some ts"
  shows "transition_screen g' = Some (ts\<lparr>current_width := WIDTH g', current_height := HEIGHT g'\<rparr>)"
  using assms
  by (auto simp: toggle_fullscreen_def handle_resize_def Let_def bind_result_def
      update_screen_size_def split: sum.splits option.splits if_splits)

text \<open>
  Claim C4 fails on the code. A resize notification that arrives while the overlay
  fades in is dropped by the iteration (\<open>loop_iteration_transition\<close>): the window size
  and the geometry of the overlay stay 800 by 600, and the overlay is drawn with it.
  With an overlay that is live while the events loop runs, the window size becomes
  1024 by 768 and the overlay keeps 800 by 600. Only \<open>toggle_fullscreen\<close> passes the
  new size on to the overlay (\<open>toggle_fullscreen_updates_overlay\<close>).
\<close>

theorem resize_during_transition_not_applied:
  "map_sum id (\<lambda>(g, running). (WIDTH g, HEIGHT g, overlay_size g,
                               map current_width (overlay_draws g)))
     (loop_iteration example_env [VIDEORESIZE 1024 768] False [] example_loading)
     = Inr (800, 600, Some (800, 600), [800]) \<and>
   map_sum id (\<lambda>(g, running). (WIDTH g, HEIGHT g, overlay_size g,
                               last (map current_width (overlay_draws g))))
     (bind_result example_abandoned
        (loop_iteration example_fast_env [VIDEORESIZE 1024 768] False []))
     = Inr (1024, 768, Some (800, 600), 800)"
  by code_simp

subsection \<open>The uniform scale factor\<close>

lemma resize_rect: "rect (resize sx sy b) = scaled_rect sx sy b"
  by (simp add: resize_def rect_def scaled_rect_def Let_def scale_image_def
      scale_hover_image_def)

lemma resize_originals:
  "original_x (resize sx sy b) = original_x b \<and> original_y (resize sx sy b) = original_y b \<and>
   original_width (resize sx sy b) = original_width b \<and>
   original_height (resize sx sy b) = original_height b"
  by (simp add: resize_def Let_def scale_image_def scale_hover_image_def)

lemma resize_axes_example:
  "rect (resize 2 1 (Button ''Play'' 300 200 200 50 False)) = (600, 200, 400, 50)"
  by (simp add: resize_rect scaled_rect_def Button_def)



section \<open>Properties of the player\<close>

lemma print_fields [simp]:
  "animation_frames (print m p) = animation_frames p"
  "animation_speeds (print m p) = animation_speeds p"
  "scale (print m p) = scale p" "debug (print m p) = debug p"
  "current_animation (print m p) = current_animation p"
  "frame_index (print m p) = frame_index p"
  "animation_timer (print m p) = animation_timer p"
  "image_surface (print m p) = image_surface p"
  "printed (print m p) = printed p @ [m]"
  by (simp_all add: print_def)

























lemma player_inv_update [simp]:
  "player_inv (p\<lparr>direction := a\<rparr>) = player_inv p"
  "player_inv (p\<lparr>facing_right := b\<rparr>) = player_inv p"
  "player_inv (p\<lparr>image_surface := c\<rparr>) = player_inv p"
  "player_inv (p\<lparr>animation_timer := d\<rparr>) = player_inv p"
  "player_inv (p\<lparr>animation_speeds := e\<rparr>) = player_inv p"
  "player_inv (p\<lparr>printed := f\<rparr>) = player_inv p"
  "player_inv (print m p) = player_inv p"
  by (simp_all add: player_inv_def index_ok_def print_def)







end
